theory Spec2Isabelle
  imports Main "HOL-Library.Word"
begin

section \<open>The kcptun client (client/main.go)\<close>

text \<open>
  A shallow embedding of the orchestration code of \<^verbatim>\<open>client/main.go\<close>: the start-up
  checks, the cipher switch, the accept loop with its pool of sessions, the FIFO reader
  and the scavenger.

  Go's \<^verbatim>\<open>int\<close> fields are HOL integers; the two places where the program narrows or
  multiplies them (\<^verbatim>\<open>uint16(config.Conn)\<close> and
  \<^verbatim>\<open>time.Duration(n) * time.Second\<close>) are machine words, so that they wrap as in Go.
  Pointers to library objects (\<^verbatim>\<open>*smux.Session\<close>, \<^verbatim>\<open>*kcp.UDPSession\<close>) are
  natural numbers naming the object, \<open>None\<close> being the nil pointer. What the libraries and
  the operating system answer (accept, dial, \<^verbatim>\<open>IsClosed\<close>, the clock, the lines of the
  pipe) is an input of each step; what the program does to them (opening a stream,
  \<^verbatim>\<open>SetFEC\<close>, \<^verbatim>\<open>Close\<close>, a send on the channel, a log line) is an output, in program
  order.
\<close>

subsection \<open>Ways a routine stops\<close>

datatype halt =
    Exit                \<comment> \<open>\<^verbatim>\<open>checkError\<close>: \<^verbatim>\<open>os.Exit(-1)\<close>\<close>
  | Fatal               \<comment> \<open>\<^verbatim>\<open>log.Fatal\<close>, \<^verbatim>\<open>log.Fatalf\<close>\<close>
  | DivideByZero        \<comment> \<open>run-time panic: integer divide by zero\<close>
  | IndexOutOfRange     \<comment> \<open>run-time panic: index out of range\<close>
  | NilDereference      \<comment> \<open>run-time panic: nil pointer dereference\<close>
  | Retrying            \<comment> \<open>\<^verbatim>\<open>waitConn\<close> has not returned: every dial so far failed\<close>

subsection \<open>Config\<close>

text \<open>
  Modelled from the spec: the declaration of the struct \<^verbatim>\<open>Config\<close>, which is in another
  file of the package. The record keeps the fields of the spec's data model that
  \<^verbatim>\<open>main.go\<close> itself branches on or computes with, with the types of their assignments in
  \<^verbatim>\<open>main\<close> (\<^verbatim>\<open>c.String\<close>, \<^verbatim>\<open>c.Int\<close>, \<^verbatim>\<open>c.Bool\<close>); the other fields are only printed
  or handed to the libraries.
\<close>

record Config =
  Crypt :: string
  Mode :: string
  Conn :: int
  AutoExpire :: int
  ScavengeTTL :: int
  DataShard :: int
  ParityShard :: int
  NoDelay :: int
  Interval :: int
  Resend :: int
  NoCongestion :: int
  SmuxVer :: int
  Log :: string
  Fifo :: string
  Quiet :: bool

definition default_config :: Config where
  \<comment> \<open>the \<^verbatim>\<open>Value\<close> of each flag in \<^verbatim>\<open>myApp.Flags\<close>\<close>
  "default_config =
     \<lparr>Crypt = ''aes'', Mode = ''fast'', Conn = 1, AutoExpire = 0, ScavengeTTL = 600,
      DataShard = 10, ParityShard = 3, NoDelay = 0, Interval = 50, Resend = 0,
      NoCongestion = 0, SmuxVer = 1, Log = '''', Fifo = '''', Quiet = False\<rparr>"

definition maxSmuxVer :: int where
  "maxSmuxVer = 2"

subsection \<open>Start-up: mode profile, parameters check, cipher switch\<close>

definition apply_mode :: "Config \<Rightarrow> Config" where
  \<comment> \<open>\<^verbatim>\<open>switch config.Mode\<close>\<close>
  "apply_mode config =
     (if Mode config = ''normal'' then
        config\<lparr>NoDelay := 0, Interval := 40, Resend := 2, NoCongestion := 1\<rparr>
      else if Mode config = ''fast'' then
        config\<lparr>NoDelay := 0, Interval := 30, Resend := 2, NoCongestion := 1\<rparr>
      else if Mode config = ''fast2'' then
        config\<lparr>NoDelay := 1, Interval := 20, Resend := 2, NoCongestion := 1\<rparr>
      else if Mode config = ''fast3'' then
        config\<lparr>NoDelay := 1, Interval := 10, Resend := 2, NoCongestion := 1\<rparr>
      else config)"

definition parameters_check :: "Config \<Rightarrow> halt + unit" where
  \<comment> \<open>\<^verbatim>\<open>if config.SmuxVer > maxSmuxVer { log.Fatal(...) }\<close>\<close>
  "parameters_check config = (if SmuxVer config > maxSmuxVer then Inl Fatal else Inr ())"

type_synonym byte = "8 word"

text \<open>
  A cipher object is named by the constructor of kcp-go that \<^verbatim>\<open>main\<close> calls and the key
  slice it passes. The variable \<^verbatim>\<open>block\<close> is \<open>None\<close> when it is nil.
\<close>

datatype BlockCrypt =
    SM4BlockCrypt "byte list"
  | TEABlockCrypt "byte list"
  | SimpleXORBlockCrypt "byte list"
  | NoneBlockCrypt "byte list"
  | AESBlockCrypt "byte list"
  | BlowfishBlockCrypt "byte list"
  | TwofishBlockCrypt "byte list"
  | Cast5BlockCrypt "byte list"
  | TripleDESBlockCrypt "byte list"
  | XTEABlockCrypt "byte list"
  | Salsa20BlockCrypt "byte list"

fun cipher_key :: "BlockCrypt \<Rightarrow> byte list" where
  "cipher_key (SM4BlockCrypt k) = k"
| "cipher_key (TEABlockCrypt k) = k"
| "cipher_key (SimpleXORBlockCrypt k) = k"
| "cipher_key (NoneBlockCrypt k) = k"
| "cipher_key (AESBlockCrypt k) = k"
| "cipher_key (BlowfishBlockCrypt k) = k"
| "cipher_key (TwofishBlockCrypt k) = k"
| "cipher_key (Cast5BlockCrypt k) = k"
| "cipher_key (TripleDESBlockCrypt k) = k"
| "cipher_key (XTEABlockCrypt k) = k"
| "cipher_key (Salsa20BlockCrypt k) = k"

definition select_crypt :: "Config \<Rightarrow> byte list \<Rightarrow> Config \<times> BlockCrypt option" where
  \<comment> \<open>\<^verbatim>\<open>switch config.Crypt\<close>; \<open>pass\<close> is the 32 bytes of \<^verbatim>\<open>pbkdf2.Key(..., 32, sha1.New)\<close>,
      and \<^verbatim>\<open>pass[:n]\<close> is \<open>take n pass\<close>\<close>
  "select_crypt config pass =
     (if Crypt config = ''null'' then (config, None)
      else if Crypt config = ''sm4'' then (config, Some (SM4BlockCrypt (take 16 pass)))
      else if Crypt config = ''tea'' then (config, Some (TEABlockCrypt (take 16 pass)))
      else if Crypt config = ''xor'' then (config, Some (SimpleXORBlockCrypt pass))
      else if Crypt config = ''none'' then (config, Some (NoneBlockCrypt pass))
      else if Crypt config = ''aes-128'' then (config, Some (AESBlockCrypt (take 16 pass)))
      else if Crypt config = ''aes-192'' then (config, Some (AESBlockCrypt (take 24 pass)))
      else if Crypt config = ''blowfish'' then (config, Some (BlowfishBlockCrypt pass))
      else if Crypt config = ''twofish'' then (config, Some (TwofishBlockCrypt pass))
      else if Crypt config = ''cast5'' then (config, Some (Cast5BlockCrypt (take 16 pass)))
      else if Crypt config = ''3des'' then (config, Some (TripleDESBlockCrypt (take 24 pass)))
      else if Crypt config = ''xtea'' then (config, Some (XTEABlockCrypt (take 16 pass)))
      else if Crypt config = ''salsa20'' then (config, Some (Salsa20BlockCrypt pass))
      else (config\<lparr>Crypt := ''aes''\<rparr>, Some (AESBlockCrypt pass)))"

text \<open>
  The steps of \<^verbatim>\<open>myApp.Action\<close> up to the cipher switch, in program order. The record
  \<open>startup_env\<close> says which of the calls that \<^verbatim>\<open>checkError\<close> guards return an error:
  loading the JSON file (tried only when the flag \<^verbatim>\<open>c\<close> is set; \<open>json_config\<close> is the
  configuration it leaves), opening the log file (tried only when \<^verbatim>\<open>config.Log\<close> is not
  empty), resolving the local address and listening on it.
\<close>

record startup_env =
  json_path :: string
  json_err :: bool
  json_config :: "Config \<Rightarrow> Config"
  log_open_err :: bool
  resolve_err :: bool
  listen_err :: bool

definition loaded_config :: "startup_env \<Rightarrow> Config \<Rightarrow> Config" where
  \<comment> \<open>\<^verbatim>\<open>config\<close> after \<^verbatim>\<open>parseJSONConfig(&config, c.String("c"))\<close>, when it is called\<close>
  "loaded_config env config0 =
     (if json_path env \<noteq> '''' then json_config env config0 else config0)"

definition startup :: "startup_env \<Rightarrow> Config \<Rightarrow> byte list \<Rightarrow> halt + (Config \<times> BlockCrypt option)" where
  "startup env config0 pass =
     (if json_path env \<noteq> '''' \<and> json_err env then Inl Exit
      else
        let config1 = loaded_config env config0 in
        if Log config1 \<noteq> '''' \<and> log_open_err env then Inl Exit
        else
          let config2 = apply_mode config1 in
          if resolve_err env then Inl Exit
          else if listen_err env then Inl Exit
          else
            (case parameters_check config2 of
               Inl h \<Rightarrow> Inl h
             | Inr _ \<Rightarrow> Inr (select_crypt config2 pass)))"

definition quiet_env :: startup_env where
  \<comment> \<open>no JSON file, and no call fails\<close>
  "quiet_env =
     \<lparr>json_path = '''', json_err = False, json_config = (\<lambda>c. c), log_open_err = False,
      resolve_err = False, listen_err = False\<rparr>"

subsection \<open>Instants and durations\<close>

text \<open>
  An instant (\<^verbatim>\<open>time.Time\<close>) is a number of nanoseconds, counted from the zero value of the
  type. A \<^verbatim>\<open>time.Duration\<close> is an \<^verbatim>\<open>int64\<close> of nanoseconds, and the product
  \<^verbatim>\<open>time.Duration(n) * time.Second\<close> is taken in 64 bits.
\<close>

type_synonym Time = int

type_synonym Duration = "64 word"

definition Second :: Duration where
  "Second = 1000000000"

definition seconds :: "int \<Rightarrow> Duration" where
  \<comment> \<open>\<^verbatim>\<open>time.Duration(n) * time.Second\<close>\<close>
  "seconds n = word_of_int n * Second"

definition Add :: "Time \<Rightarrow> Duration \<Rightarrow> Time" where
  \<comment> \<open>\<^verbatim>\<open>t.Add(d)\<close>\<close>
  "Add t d = t + sint d"

definition After :: "Time \<Rightarrow> Time \<Rightarrow> bool" where
  \<comment> \<open>\<^verbatim>\<open>t.After(u)\<close>\<close>
  "After t u = (u < t)"

subsection \<open>The pool and the accept loop\<close>

record timedSession =
  session :: "nat option"
  expiryDate :: Time

text \<open>
  One call of \<^verbatim>\<open>createConn\<close> ends in one of four ways: \<^verbatim>\<open>dial\<close> fails, the call of
  \<^verbatim>\<open>smux.VerifyConfig\<close> fails (\<^verbatim>\<open>log.Fatalf\<close>), \<^verbatim>\<open>smux.Client\<close> fails, or a session
  and its connection are returned. \<^verbatim>\<open>waitConn\<close> calls it until it succeeds; the list is
  what the successive calls answer, and a list that ends before a success stands for a
  loop that is still retrying.
\<close>

datatype createConn_result =
    DialError
  | VerifyConfigError
  | ClientError
  | Created nat nat

fun waitConn :: "createConn_result list \<Rightarrow> halt + (nat \<times> nat)" where
  "waitConn [] = Inl Retrying"
| "waitConn (Created s c # rest) = Inr (s, c)"
| "waitConn (VerifyConfigError # rest) = Inl Fatal"
| "waitConn (DialError # rest) = waitConn rest"
| "waitConn (ClientError # rest) = waitConn rest"

text \<open>
  What one turn of the accept loop observes: whether \<^verbatim>\<open>AcceptTCP\<close> returns an error, what
  \<^verbatim>\<open>IsClosed\<close> answers for a session, the clock when the expiry is tested, the answers
  of \<^verbatim>\<open>createConn\<close>, and the clock when the new expiry is computed. A send on
  \<^verbatim>\<open>chScavenger\<close> is taken to complete: the channel holds 128 items and the scavenger
  receives from it whenever \<^verbatim>\<open>AutoExpire > 0\<close>.
\<close>

record accept_ev =
  AcceptTCP_err :: bool
  IsClosed :: "nat \<Rightarrow> bool"
  now_check :: Time
  dials :: "createConn_result list"
  now_fill :: Time

record pool =
  numconn :: "16 word"
  muxes :: "timedSession list"
  connes :: "nat option list"
  rr :: "16 word"

datatype action =
    ChanSend timedSession       \<comment> \<open>\<^verbatim>\<open>chScavenger <- muxes[idx]\<close>\<close>
  | HandleClient "nat option"   \<comment> \<open>\<^verbatim>\<open>go handleClient(muxes[idx].session, p1, config.Quiet)\<close>,
                                     which opens a stream on the session\<close>

definition new_pool :: "Config \<Rightarrow> pool" where
  \<comment> \<open>\<^verbatim>\<open>numconn := uint16(config.Conn)\<close>, the two \<^verbatim>\<open>make\<close>, \<^verbatim>\<open>rr := uint16(0)\<close>\<close>
  "new_pool config =
     (let n = (word_of_int (Conn config) :: 16 word) in
      \<lparr>numconn = n,
       muxes = replicate (unat n) \<lparr>session = None, expiryDate = 0\<rparr>,
       connes = replicate (unat n) None,
       rr = 0\<rparr>)"

definition stale :: "Config \<Rightarrow> accept_ev \<Rightarrow> timedSession \<Rightarrow> bool" where
  \<comment> \<open>the condition of the \<^verbatim>\<open>if\<close> in the accept loop\<close>
  "stale config ev m =
     (case session m of
        None \<Rightarrow> True
      | Some s \<Rightarrow> IsClosed ev s \<or> (AutoExpire config > 0 \<and> After (now_check ev) (expiryDate m)))"

definition idx :: "pool \<Rightarrow> nat" where
  \<comment> \<open>\<^verbatim>\<open>idx := rr % numconn\<close>, for \<open>numconn \<noteq> 0\<close>\<close>
  "idx p = unat (rr p mod numconn p)"

definition accept_once :: "Config \<Rightarrow> pool \<Rightarrow> accept_ev \<Rightarrow> halt + (pool \<times> action list)" where
  \<comment> \<open>one turn of the \<^verbatim>\<open>for\<close> loop of the acceptor\<close>
  "accept_once config p ev =
     (if AcceptTCP_err ev then Inl Fatal
      else if numconn p = 0 then Inl DivideByZero
      else if length (muxes p) \<le> idx p then Inl IndexOutOfRange
      else if stale config ev (muxes p ! idx p) then
        (case waitConn (dials ev) of
           Inl h \<Rightarrow> Inl h
         | Inr (s, c) \<Rightarrow>
             if length (connes p) \<le> idx p then Inl IndexOutOfRange
             else
               let m = \<lparr>session = Some s,
                        expiryDate = Add (now_fill ev) (seconds (AutoExpire config))\<rparr>;
                   p' = p\<lparr>muxes := (muxes p)[idx p := m],
                          connes := (connes p)[idx p := Some c]\<rparr>
               in Inr (p'\<lparr>rr := rr p + 1\<rparr>,
                       (if AutoExpire config > 0 then [ChanSend m] else []) @
                       [HandleClient (Some s)]))
      else Inr (p\<lparr>rr := rr p + 1\<rparr>, [HandleClient (session (muxes p ! idx p))]))"

fun accept_loop :: "Config \<Rightarrow> pool \<Rightarrow> accept_ev list \<Rightarrow> action list \<times> (halt + pool)" where
  "accept_loop config p [] = ([], Inr p)"
| "accept_loop config p (ev # evs) =
     (case accept_once config p ev of
        Inl h \<Rightarrow> ([], Inl h)
      | Inr (p', acts) \<Rightarrow>
          (case accept_loop config p' evs of (acts', r) \<Rightarrow> (acts @ acts', r)))"

subsection \<open>The FIFO reader\<close>

text \<open>
  Three functions of Go's standard library, as their documentation and code define them
  for the arguments used here: \<^verbatim>\<open>strings.Split(s, " ")\<close>, \<^verbatim>\<open>strings.Contains\<close> and
  \<^verbatim>\<open>strconv.Atoi\<close> (base 10, a 64-bit \<^verbatim>\<open>int\<close>). \<^verbatim>\<open>Atoi\<close> returns a value and an error;
  on a syntax error the value is 0, on a range error it is the nearest \<^verbatim>\<open>int\<close>.
\<close>

fun Split :: "string \<Rightarrow> char \<Rightarrow> string list" where
  "Split [] sep = [[]]"
| "Split (c # cs) sep =
     (if c = sep then [] # Split cs sep
      else (case Split cs sep of [] \<Rightarrow> [[c]] | t # ts \<Rightarrow> (c # t) # ts))"

fun HasPrefix :: "string \<Rightarrow> string \<Rightarrow> bool" where
  "HasPrefix s [] = True"
| "HasPrefix [] (p # ps) = False"
| "HasPrefix (c # cs) (p # ps) = (c = p \<and> HasPrefix cs ps)"

fun Contains :: "string \<Rightarrow> string \<Rightarrow> bool" where
  "Contains [] substr = HasPrefix [] substr"
| "Contains (c # cs) substr = (HasPrefix (c # cs) substr \<or> Contains cs substr)"

datatype NumError = ErrSyntax | ErrRange

datatype parsed = Parsed int | Failed NumError

definition is_digit :: "char \<Rightarrow> bool" where
  "is_digit c = (48 \<le> (of_char c :: int) \<and> (of_char c :: int) \<le> 57)"

fun ParseUint_digits :: "int \<Rightarrow> string \<Rightarrow> parsed" where
  \<comment> \<open>the loop of \<^verbatim>\<open>ParseUint(s, 10, 64)\<close>; it stops at the first overflow\<close>
  "ParseUint_digits n [] = Parsed n"
| "ParseUint_digits n (c # cs) =
     (if \<not> is_digit c then Failed ErrSyntax
      else if n \<ge> 18446744073709551615 div 10 + 1 then Failed ErrRange
      else
        let n1 = n * 10 + (of_char c - 48) in
        if n1 > 18446744073709551615 then Failed ErrRange else ParseUint_digits n1 cs)"

definition ParseUint :: "string \<Rightarrow> parsed" where
  "ParseUint s = (if s = [] then Failed ErrSyntax else ParseUint_digits 0 s)"

definition ParseInt_signed :: "bool \<Rightarrow> parsed \<Rightarrow> int \<times> NumError option" where
  \<comment> \<open>the end of \<^verbatim>\<open>ParseInt(s, 10, 0)\<close>: the sign, and the value cut off at the range of
      \<^verbatim>\<open>int64\<close>; on a range error \<^verbatim>\<open>ParseUint\<close> has returned the largest \<^verbatim>\<open>uint64\<close>\<close>
  "ParseInt_signed neg r =
     (case r of
        Failed ErrSyntax \<Rightarrow> (0, Some ErrSyntax)
      | Failed ErrRange \<Rightarrow>
          (if neg then - 9223372036854775808 else 9223372036854775807, Some ErrRange)
      | Parsed un \<Rightarrow>
          if \<not> neg \<and> un \<ge> 9223372036854775808 then (9223372036854775807, Some ErrRange)
          else if neg \<and> un > 9223372036854775808 then (- 9223372036854775808, Some ErrRange)
          else (if neg then - un else un, None))"

definition Atoi :: "string \<Rightarrow> int \<times> NumError option" where
  \<comment> \<open>\<^verbatim>\<open>ParseInt(s, 10, 0)\<close> converted to \<^verbatim>\<open>int\<close>; the fast path for short strings
      returns the same\<close>
  "Atoi s =
     (case s of
        [] \<Rightarrow> (0, Some ErrSyntax)
      | c # cs \<Rightarrow>
          ParseInt_signed (c = CHR ''-'')
            (ParseUint (if c = CHR ''+'' \<or> c = CHR ''-'' then cs else s)))"

datatype fifo_action =
    LogShards int int        \<comment> \<open>\<^verbatim>\<open>log.Println("ds:", ds, "ps:", ps)\<close>\<close>
  | SetFEC nat int int       \<comment> \<open>\<^verbatim>\<open>connes[addr].SetFEC(config.DataShard, config.ParityShard)\<close>\<close>
  | LogUnknownCall           \<comment> \<open>\<^verbatim>\<open>log.Println("Unknown call")\<close>\<close>

fun set_fec_all :: "nat option list \<Rightarrow> int \<Rightarrow> int \<Rightarrow> fifo_action list" where
  \<comment> \<open>\<^verbatim>\<open>for addr := range connes\<close>\<close>
  "set_fec_all [] ds ps = []"
| "set_fec_all (None # cs) ds ps = set_fec_all cs ds ps"
| "set_fec_all (Some c # cs) ds ps = SetFEC c ds ps # set_fec_all cs ds ps"

definition fifo_line :: "Config \<Rightarrow> nat option list \<Rightarrow> string \<Rightarrow> halt + (Config \<times> fifo_action list)" where
  \<comment> \<open>the body of \<^verbatim>\<open>if err == nil\<close>: one line returned by \<^verbatim>\<open>ReadLine\<close>\<close>
  "fifo_line config cs line =
     (let message = Split line CHR '' '' in
      if length message \<le> 0 then Inl IndexOutOfRange
      else if Contains (message ! 0) ''fec'' then
        if length message \<le> 1 then Inl IndexOutOfRange
        else
          let ds = fst (Atoi (message ! 1)) in
          if length message \<le> 2 then Inl IndexOutOfRange
          else
            let ps = fst (Atoi (message ! 2)) in
            if ds \<noteq> DataShard config \<or> ps \<noteq> ParityShard config then
              Inr (config\<lparr>DataShard := ds, ParityShard := ps\<rparr>,
                   LogShards ds ps # set_fec_all cs ds ps)
            else Inr (config, [])
      else Inr (config, [LogUnknownCall]))"

text \<open>
  The loop of the reader. Each turn calls \<^verbatim>\<open>ReadLine\<close>, which returns an error or a
  line, and sees the slice \<^verbatim>\<open>connes\<close> as the acceptor has left it at that moment.
\<close>

datatype read_result = ReadError | ReadLine string

fun fifo_loop :: "Config \<Rightarrow> (nat option list \<times> read_result) list \<Rightarrow> fifo_action list \<times> (halt + Config)" where
  "fifo_loop config [] = ([], Inr config)"
| "fifo_loop config ((cs, ReadError) # rest) = fifo_loop config rest"
| "fifo_loop config ((cs, ReadLine line) # rest) =
     (case fifo_line config cs line of
        Inl h \<Rightarrow> ([], Inl h)
      | Inr (config', acts) \<Rightarrow>
          (case fifo_loop config' rest of (acts', r) \<Rightarrow> (acts @ acts', r)))"

definition fifo_reader :: "Config \<Rightarrow> bool \<Rightarrow> (nat option list \<times> read_result) list \<Rightarrow> fifo_action list \<times> (halt + Config)" where
  \<comment> \<open>the goroutine started when \<^verbatim>\<open>config.Fifo != ""\<close>; \<open>open_err\<close>: \<^verbatim>\<open>os.OpenFile\<close> fails\<close>
  "fifo_reader config open_err reads =
     (if open_err then ([], Inl Fatal) else fifo_loop config reads)"

subsection \<open>The scavenger\<close>

text \<open>
  The \<^verbatim>\<open>select\<close> of the scavenger takes either an item from the channel or a tick. During
  a tick the loop over \<^verbatim>\<open>sessionList\<close> asks each entry's session whether it is closed and,
  when it is not, reads the clock: \<open>closed_at k\<close> and \<open>now_at k\<close> are the answers at the
  entry of index \<open>k\<close>.
\<close>

datatype scav_event =
    Receive timedSession
  | Tick "nat \<Rightarrow> bool" "nat \<Rightarrow> Time"

datatype scav_action =
    LogNormallyClosed nat    \<comment> \<open>\<^verbatim>\<open>"scavenger: session normally closed:"\<close>\<close>
  | CloseSession nat         \<comment> \<open>\<^verbatim>\<open>s.session.Close()\<close>\<close>
  | LogClosedTTL nat         \<comment> \<open>\<^verbatim>\<open>"scavenger: session closed due to ttl:"\<close>\<close>

fun tick_entries :: "(nat \<Rightarrow> bool) \<Rightarrow> (nat \<Rightarrow> Time) \<Rightarrow> nat \<Rightarrow> timedSession list \<Rightarrow> halt + (timedSession list \<times> scav_action list)" where
  \<comment> \<open>\<^verbatim>\<open>for k := range sessionList\<close>, from index \<open>k\<close> on: the new list and what was done\<close>
  "tick_entries closed_at now_at k [] = Inr ([], [])"
| "tick_entries closed_at now_at k (s # rest) =
     (case session s of
        None \<Rightarrow> Inl NilDereference
      | Some x \<Rightarrow>
          (case tick_entries closed_at now_at (Suc k) rest of
             Inl h \<Rightarrow> Inl h
           | Inr (newList, acts) \<Rightarrow>
               if closed_at k then Inr (newList, LogNormallyClosed x # acts)
               else if After (now_at k) (expiryDate s) then
                 Inr (newList, CloseSession x # LogClosedTTL x # acts)
               else Inr (s # newList, acts)))"

definition scavenger_step :: "Config \<Rightarrow> timedSession list \<Rightarrow> scav_event \<Rightarrow> halt + (timedSession list \<times> scav_action list)" where
  "scavenger_step config sessionList e =
     (case e of
        Receive item \<Rightarrow>
          Inr (sessionList @
                 [\<lparr>session = session item,
                   expiryDate = Add (expiryDate item) (seconds (ScavengeTTL config))\<rparr>], [])
      | Tick closed_at now_at \<Rightarrow>
          if length sessionList = 0 then Inr (sessionList, [])
          else tick_entries closed_at now_at 0 sessionList)"

datatype scav_state =
    Returned                       \<comment> \<open>the routine has returned\<close>
  | Looping "timedSession list"    \<comment> \<open>in the loop, with this \<^verbatim>\<open>sessionList\<close>\<close>
  | Stopped halt

fun scavenger_loop :: "Config \<Rightarrow> timedSession list \<Rightarrow> scav_event list \<Rightarrow> scav_action list \<times> scav_state" where
  "scavenger_loop config sessionList [] = ([], Looping sessionList)"
| "scavenger_loop config sessionList (e # es) =
     (case scavenger_step config sessionList e of
        Inl h \<Rightarrow> ([], Stopped h)
      | Inr (sessionList', acts) \<Rightarrow>
          (case scavenger_loop config sessionList' es of (acts', r) \<Rightarrow> (acts @ acts', r)))"

definition scavenger :: "Config \<Rightarrow> scav_event list \<Rightarrow> scav_action list \<times> scav_state" where
  "scavenger config es =
     (if AutoExpire config \<le> 0 then ([], Returned) else scavenger_loop config [] es)"

subsection \<open>Names used by the statements\<close>

definition crypt_names :: "string list" where
  \<comment> \<open>the names listed in the \<^verbatim>\<open>Usage\<close> of the flag \<^verbatim>\<open>crypt\<close>\<close>
  "crypt_names = [''aes'', ''aes-128'', ''aes-192'', ''salsa20'', ''blowfish'', ''twofish'',
     ''cast5'', ''3des'', ''tea'', ''xtea'', ''xor'', ''sm4'', ''none'', ''null'']"

definition key_length :: "BlockCrypt option \<Rightarrow> nat option" where
  \<comment> \<open>the number of key bytes a cipher object was built from\<close>
  "key_length block = map_option (\<lambda>b. length (cipher_key b)) block"

definition ev_first :: accept_ev where
  \<comment> \<open>a turn of the accept loop: nothing is closed, the second dial succeeds\<close>
  "ev_first = \<lparr>AcceptTCP_err = False, IsClosed = (\<lambda>s. False), now_check = 5000000000,
      dials = [DialError, Created 1 2], now_fill = 6000000000\<rparr>"

definition ev_second :: accept_ev where
  \<comment> \<open>a later turn: nothing is closed, and no dial would succeed\<close>
  "ev_second = \<lparr>AcceptTCP_err = False, IsClosed = (\<lambda>s. False), now_check = 7000000000,
      dials = [], now_fill = 7000000000\<rparr>"



definition pool_ok :: "pool \<Rightarrow> bool" where
  \<comment> \<open>the two slices have the length they were made with\<close>
  "pool_ok p = (length (muxes p) = unat (numconn p) \<and> length (connes p) = unat (numconn p))"

fun sent_sessions :: "action list \<Rightarrow> nat option set" where
  \<comment> \<open>the sessions sent on the channel in a trace\<close>
  "sent_sessions [] = {}"
| "sent_sessions (ChanSend m # rest) = insert (session m) (sent_sessions rest)"
| "sent_sessions (HandleClient s # rest) = sent_sessions rest"

fun sent_before :: "nat option set \<Rightarrow> action list \<Rightarrow> bool" where
  \<comment> \<open>every stream of the trace is opened on a session that is not nil and is in \<open>S\<close> or was
      sent on the channel earlier in the trace\<close>
  "sent_before S [] = True"
| "sent_before S (ChanSend m # rest) = sent_before (insert (session m) S) rest"
| "sent_before S (HandleClient s # rest) = (s \<noteq> None \<and> s \<in> S \<and> sent_before S rest)"

definition config_expiring :: Config where
  \<comment> \<open>the default configuration with \<^verbatim>\<open>-autoexpire 10\<close>\<close>
  "config_expiring = default_config\<lparr>AutoExpire := 10\<rparr>"

definition pool_first :: pool where
  \<comment> \<open>the pool of \<open>config_expiring\<close> after the turn \<open>ev_first\<close>\<close>
  "pool_first =
     \<lparr>numconn = 1, muxes = [\<lparr>session = Some 1, expiryDate = 16000000000\<rparr>],
      connes = [Some 2], rr = 1\<rparr>"

section \<open>Properties\<close>

subsection \<open>The cipher switch\<close>

lemma select_crypt_by_name:
  "Crypt config = ''aes'' \<Longrightarrow> snd (select_crypt config pass) = Some (AESBlockCrypt pass)"
  "Crypt config = ''aes-128'' \<Longrightarrow>
     snd (select_crypt config pass) = Some (AESBlockCrypt (take 16 pass))"
  "Crypt config = ''aes-192'' \<Longrightarrow>
     snd (select_crypt config pass) = Some (AESBlockCrypt (take 24 pass))"
  "Crypt config = ''sm4'' \<Longrightarrow>
     snd (select_crypt config pass) = Some (SM4BlockCrypt (take 16 pass))"
  "Crypt config = ''tea'' \<Longrightarrow>
     snd (select_crypt config pass) = Some (TEABlockCrypt (take 16 pass))"
  "Crypt config = ''xtea'' \<Longrightarrow>
     snd (select_crypt config pass) = Some (XTEABlockCrypt (take 16 pass))"
  "Crypt config = ''cast5'' \<Longrightarrow>
     snd (select_crypt config pass) = Some (Cast5BlockCrypt (take 16 pass))"
  "Crypt config = ''3des'' \<Longrightarrow>
     snd (select_crypt config pass) = Some (TripleDESBlockCrypt (take 24 pass))"
  "Crypt config = ''xor'' \<Longrightarrow>
     snd (select_crypt config pass) = Some (SimpleXORBlockCrypt pass)"
  "Crypt config = ''blowfish'' \<Longrightarrow>
     snd (select_crypt config pass) = Some (BlowfishBlockCrypt pass)"
  "Crypt config = ''twofish'' \<Longrightarrow>
     snd (select_crypt config pass) = Some (TwofishBlockCrypt pass)"
  "Crypt config = ''salsa20'' \<Longrightarrow>
     snd (select_crypt config pass) = Some (Salsa20BlockCrypt pass)"
  "Crypt config = ''none'' \<Longrightarrow>
     snd (select_crypt config pass) = Some (NoneBlockCrypt pass)"
  "Crypt config = ''null'' \<Longrightarrow> snd (select_crypt config pass) = None"
  by (simp_all add: select_crypt_def)

lemma select_crypt_known:
  "Crypt config \<in> set crypt_names \<Longrightarrow> fst (select_crypt config pass) = config"
  by (auto simp add: select_crypt_def crypt_names_def)

lemma select_crypt_unknown:
  assumes "Crypt config \<notin> set crypt_names"
  shows "select_crypt config pass = (config\<lparr>Crypt := ''aes''\<rparr>, Some (AESBlockCrypt pass))"
    and "select_crypt (config\<lparr>Crypt := ''aes''\<rparr>) pass
           = (config\<lparr>Crypt := ''aes''\<rparr>, Some (AESBlockCrypt pass))"
  using assms by (simp_all add: select_crypt_def crypt_names_def)

lemma key_length_select_crypt:
  assumes "length pass = 32"
  shows "key_length (snd (select_crypt config pass)) =
          (if Crypt config = ''null'' then None
           else if Crypt config \<in> {''aes-128'', ''sm4'', ''tea'', ''xtea'', ''cast5''} then Some 16
           else if Crypt config \<in> {''aes-192'', ''3des''} then Some 24
           else Some 32)"
  using assms by (simp add: select_crypt_def key_length_def)

text \<open>
  Claim C9. Given the 32 bytes derived from the passphrase, the switch builds for each
  name of the enumerated set the cipher of that name, from the whole key or from its
  first 16 or 24 bytes: \<open>aes\<close> 32, \<open>aes-128\<close> 16, \<open>aes-192\<close> 24, \<open>sm4\<close>, \<open>tea\<close>, \<open>xtea\<close> and
  \<open>cast5\<close> 16, \<open>3des\<close> 24, the others 32. \<open>null\<close> gives no cipher object, \<open>none\<close> the
  pass-through cipher. For a name of the set the configuration is unchanged; for any
  other name the result is that of \<open>aes\<close> with the whole key, and the field \<open>Crypt\<close>
  becomes \<open>aes\<close>.
\<close>

theorem select_crypt_keys:
  assumes "length pass = 32"
  shows "(Crypt config = ''aes'' \<longrightarrow> snd (select_crypt config pass) = Some (AESBlockCrypt pass))
    \<and> (Crypt config = ''aes-128'' \<longrightarrow>
         snd (select_crypt config pass) = Some (AESBlockCrypt (take 16 pass)))
    \<and> (Crypt config = ''aes-192'' \<longrightarrow>
         snd (select_crypt config pass) = Some (AESBlockCrypt (take 24 pass)))
    \<and> (Crypt config = ''sm4'' \<longrightarrow>
         snd (select_crypt config pass) = Some (SM4BlockCrypt (take 16 pass)))
    \<and> (Crypt config = ''tea'' \<longrightarrow>
         snd (select_crypt config pass) = Some (TEABlockCrypt (take 16 pass)))
    \<and> (Crypt config = ''xtea'' \<longrightarrow>
         snd (select_crypt config pass) = Some (XTEABlockCrypt (take 16 pass)))
    \<and> (Crypt config = ''cast5'' \<longrightarrow>
         snd (select_crypt config pass) = Some (Cast5BlockCrypt (take 16 pass)))
    \<and> (Crypt config = ''3des'' \<longrightarrow>
         snd (select_crypt config pass) = Some (TripleDESBlockCrypt (take 24 pass)))
    \<and> (Crypt config = ''xor'' \<longrightarrow>
         snd (select_crypt config pass) = Some (SimpleXORBlockCrypt pass))
    \<and> (Crypt config = ''blowfish'' \<longrightarrow>
         snd (select_crypt config pass) = Some (BlowfishBlockCrypt pass))
    \<and> (Crypt config = ''twofish'' \<longrightarrow>
         snd (select_crypt config pass) = Some (TwofishBlockCrypt pass))
    \<and> (Crypt config = ''salsa20'' \<longrightarrow>
         snd (select_crypt config pass) = Some (Salsa20BlockCrypt pass))
    \<and> (Crypt config = ''none'' \<longrightarrow>
         snd (select_crypt config pass) = Some (NoneBlockCrypt pass))
    \<and> (Crypt config = ''null'' \<longrightarrow> snd (select_crypt config pass) = None)
    \<and> (Crypt config \<in> set crypt_names \<longrightarrow> fst (select_crypt config pass) = config)
    \<and> (Crypt config \<notin> set crypt_names \<longrightarrow>
         select_crypt config pass = (config\<lparr>Crypt := ''aes''\<rparr>, Some (AESBlockCrypt pass))
         \<and> select_crypt config pass = select_crypt (config\<lparr>Crypt := ''aes''\<rparr>) pass)
    \<and> key_length (snd (select_crypt config pass)) =
          (if Crypt config = ''null'' then None
           else if Crypt config \<in> {''aes-128'', ''sm4'', ''tea'', ''xtea'', ''cast5''} then Some 16
           else if Crypt config \<in> {''aes-192'', ''3des''} then Some 24
           else Some 32)"
  using assms
  by (simp add: select_crypt_by_name select_crypt_known select_crypt_unknown
      key_length_select_crypt)

text \<open>The theorem at two configurations: \<open>tea\<close>, and a name outside the set.\<close>

theorem select_crypt_keys_witness:
  "length (replicate 32 (7 :: byte)) = 32
   \<and> snd (select_crypt (default_config\<lparr>Crypt := ''tea''\<rparr>) (replicate 32 7))
        = Some (TEABlockCrypt (take 16 (replicate 32 7)))
   \<and> ''chacha'' \<notin> set crypt_names
   \<and> select_crypt (default_config\<lparr>Crypt := ''chacha''\<rparr>) (replicate 32 7)
        = (default_config\<lparr>Crypt := ''aes''\<rparr>, Some (AESBlockCrypt (replicate 32 7)))"
proof -
  have len: "length (replicate 32 (7 :: byte)) = 32"
    by simp
  have tea: "Crypt (default_config\<lparr>Crypt := ''tea''\<rparr>) = ''tea''"
    by simp
  have unknown: "''chacha'' \<notin> set crypt_names"
    by (simp add: crypt_names_def)
  then have unknown': "Crypt (default_config\<lparr>Crypt := ''chacha''\<rparr>) \<notin> set crypt_names"
    by simp
  have 1: "snd (select_crypt (default_config\<lparr>Crypt := ''tea''\<rparr>) (replicate 32 7))
        = Some (TEABlockCrypt (take 16 (replicate 32 7)))"
    using select_crypt_keys [OF len, of "default_config\<lparr>Crypt := ''tea''\<rparr>"] by simp
  have 2: "select_crypt (default_config\<lparr>Crypt := ''chacha''\<rparr>) (replicate 32 7)
        = (default_config\<lparr>Crypt := ''chacha'', Crypt := ''aes''\<rparr>, Some (AESBlockCrypt (replicate 32 7)))"
    using select_crypt_keys [OF len, of "default_config\<lparr>Crypt := ''chacha''\<rparr>"] unknown' by simp
  show ?thesis
    using len 1 2 unknown by simp
qed

subsection \<open>The parameters check\<close>

lemma SmuxVer_apply_mode: "SmuxVer (apply_mode config) = SmuxVer config"
  by (simp add: apply_mode_def)

text \<open>
  Claim C4, as stated, fails: a mux version of 0 is outside \<open>{1, 2}\<close> and passes the
  parameters check, and start-up goes on to the cipher switch; and a start-up with the
  default version 1 still ends when listening fails.
\<close>

theorem smuxver_zero_not_rejected:
  "SmuxVer (default_config\<lparr>SmuxVer := 0\<rparr>) \<notin> {1, 2}
   \<and> parameters_check (default_config\<lparr>SmuxVer := 0\<rparr>) = Inr ()
   \<and> startup quiet_env (default_config\<lparr>SmuxVer := 0\<rparr>) (replicate 32 0)
       = Inr (apply_mode (default_config\<lparr>SmuxVer := 0\<rparr>), Some (AESBlockCrypt (replicate 32 0)))
   \<and> SmuxVer default_config \<in> {1, 2}
   \<and> startup (quiet_env\<lparr>listen_err := True\<rparr>) default_config (replicate 32 0) = Inl Exit"
  by (simp add: parameters_check_def startup_def quiet_env_def default_config_def
      maxSmuxVer_def loaded_config_def apply_mode_def select_crypt_def)

text \<open>
  Claim C4, amended. The parameters check is fatal exactly when the mux version is
  greater than \<open>maxSmuxVer = 2\<close>; start-up ends in \<^verbatim>\<open>log.Fatal\<close> exactly when loading the
  configuration, opening the log, resolving and listening have all succeeded and the
  loaded mux version is greater than 2.
\<close>

theorem startup_fatal_smuxver:
  "(parameters_check config = Inl Fatal \<longleftrightarrow> 2 < SmuxVer config)
   \<and> (parameters_check config = Inr () \<longleftrightarrow> SmuxVer config \<le> 2)
   \<and> (startup env config0 pass = Inl Fatal \<longleftrightarrow>
        \<not> (json_path env \<noteq> '''' \<and> json_err env)
        \<and> \<not> (Log (loaded_config env config0) \<noteq> '''' \<and> log_open_err env)
        \<and> \<not> resolve_err env \<and> \<not> listen_err env
        \<and> 2 < SmuxVer (loaded_config env config0))"
  by (simp add: parameters_check_def startup_def maxSmuxVer_def SmuxVer_apply_mode Let_def)

subsection \<open>The FIFO reader\<close>







text \<open>
  Claim C2 asks that every line read from the pipe is either applied or logged and
  ignored, and that the reader then goes on with the next line. The code indexes
  \<^verbatim>\<open>message[1]\<close> and \<^verbatim>\<open>message[2]\<close> without looking at the length of \<^verbatim>\<open>message\<close>: on the
  line \<open>fec\<close>, and on the line \<open>fec 20\<close>, it stops with an index out of range, and the
  well-formed line that follows is never read.
\<close>

theorem fifo_short_fec_line_panics:
  "fifo_line default_config [] ''fec'' = Inl IndexOutOfRange
   \<and> fifo_line default_config [] ''fec 20'' = Inl IndexOutOfRange
   \<and> fifo_reader default_config False [([], ReadLine ''fec''), ([], ReadLine ''fec 20 5'')]
        = ([], Inl IndexOutOfRange)"
  by (simp add: fifo_line_def fifo_reader_def)

text \<open>The first of these lines, alone.\<close>

theorem fifo_short_fec_line_panics_witness:
  "fifo_line default_config [] ''fec'' = Inl IndexOutOfRange"
  by (rule conjunct1 [OF fifo_short_fec_line_panics])





subsection \<open>The accept loop\<close>

lemma new_pool_zero: "Conn config = 0 \<Longrightarrow> numconn (new_pool config) = 0"
  by (simp add: new_pool_def Let_def)

text \<open>
  Claim C10. With \<^verbatim>\<open>Conn = 0\<close> the pool has no slot and \<^verbatim>\<open>numconn\<close> is 0: the first
  connection that is accepted stops the acceptor with a division by zero, before any
  stream is opened, whatever follows.
\<close>

theorem conn_zero_divide_by_zero:
  assumes "Conn config = 0" and "\<not> AcceptTCP_err ev"
  shows "accept_once config (new_pool config) ev = Inl DivideByZero
    \<and> accept_loop config (new_pool config) (ev # evs) = ([], Inl DivideByZero)"
  using assms by (simp add: accept_once_def new_pool_zero)

text \<open>The theorem at \<^verbatim>\<open>Conn = 0\<close> and two accepted connections.\<close>

theorem conn_zero_divide_by_zero_witness:
  "Conn (default_config\<lparr>Conn := 0\<rparr>) = 0 \<and> \<not> AcceptTCP_err ev_first
   \<and> accept_loop (default_config\<lparr>Conn := 0\<rparr>) (new_pool (default_config\<lparr>Conn := 0\<rparr>))
        [ev_first, ev_second] = ([], Inl DivideByZero)"
  using conn_zero_divide_by_zero [of "default_config\<lparr>Conn := 0\<rparr>" ev_first "[ev_second]"]
  by (simp add: ev_first_def)

lemma accept_once_no_send:
  assumes "AutoExpire config \<le> 0" and "accept_once config p ev = Inr (p', acts)"
  shows "ChanSend ts \<notin> set acts"
  using assms
  by (auto simp add: accept_once_def Let_def split: if_splits sum.splits prod.splits)

lemma accept_loop_no_send:
  assumes "AutoExpire config \<le> 0"
  shows "ChanSend ts \<notin> set (fst (accept_loop config p evs))"
proof (induction evs arbitrary: p)
  case Nil
  show ?case by simp
next
  case (Cons ev evs)
  show ?case
  proof (cases "accept_once config p ev")
    case (Inl h)
    then show ?thesis by simp
  next
    case (Inr r)
    obtain p' acts where r: "r = (p', acts)" by (cases r)
    have "ChanSend ts \<notin> set acts"
      using accept_once_no_send [OF assms] Inr r by blast
    moreover have "ChanSend ts \<notin> set (fst (accept_loop config p' evs))"
      by (rule Cons.IH)
    ultimately show ?thesis
      using Inr r by (auto split: prod.splits)
  qed
qed

text \<open>
  Claim C8. With \<^verbatim>\<open>AutoExpire \<le> 0\<close> the scavenger returns at once, whatever the channel
  and the ticker would deliver, with nothing received and nothing closed; and the
  acceptor, from any pool and over any accepted connections, never sends on the channel.
\<close>

theorem autoexpire_off_no_scavenging:
  assumes "AutoExpire config \<le> 0"
  shows "scavenger config es = ([], Returned)
    \<and> (\<forall>ts. ChanSend ts \<notin> set (fst (accept_loop config p evs)))"
  using assms accept_loop_no_send by (simp add: scavenger_def)


text \<open>The theorem at the default configuration, where \<^verbatim>\<open>AutoExpire = 0\<close>.\<close>

theorem autoexpire_off_no_scavenging_witness:
  "AutoExpire default_config \<le> 0
   \<and> scavenger default_config [Receive \<lparr>session = Some 1, expiryDate = 0\<rparr>, Tick (\<lambda>k. True) (\<lambda>k. 0)]
        = ([], Returned)
   \<and> (\<forall>ts. ChanSend ts \<notin> set (fst (accept_loop default_config (new_pool default_config)
                                         [ev_first, ev_second])))"
proof -
  have h: "AutoExpire default_config \<le> 0"
    by (simp add: default_config_def)
  show ?thesis
    using h autoexpire_off_no_scavenging [OF h] by blast
qed

subsection \<open>The scavenger\<close>











subsection \<open>The pool: slots and refills\<close>

lemma idx_less:
  assumes "numconn p \<noteq> 0"
  shows "idx p < unat (numconn p)"
proof -
  have "0 < unat (numconn p)"
    using assms by (simp add: unat_gt_0)
  then show ?thesis
    by (simp add: idx_def unat_mod_distrib)
qed

lemma pool_ok_new_pool: "pool_ok (new_pool config)"
  by (simp add: pool_ok_def new_pool_def Let_def)

lemma numconn_new_pool: "numconn (new_pool config) = word_of_int (Conn config)"
  by (simp add: new_pool_def Let_def)

lemma rr_new_pool: "rr (new_pool config) = 0"
  by (simp add: new_pool_def Let_def)

lemma accept_once_pool:
  assumes "accept_once config p ev = Inr (p', acts)" and "pool_ok p"
  shows "pool_ok p' \<and> numconn p' = numconn p \<and> rr p' = rr p + 1"
  using assms
  by (auto simp add: accept_once_def pool_ok_def Let_def split: if_splits sum.splits prod.splits)

lemma accept_loop_pool:
  assumes "accept_loop config p evs = (acts, Inr p')" and "pool_ok p"
  shows "pool_ok p' \<and> numconn p' = numconn p \<and> rr p' = rr p + of_nat (length evs)"
  using assms
proof (induction evs arbitrary: p acts)
  case Nil
  then show ?case by simp
next
  case (Cons ev evs)
  show ?case
  proof (cases "accept_once config p ev")
    case (Inl h)
    with Cons.prems show ?thesis by simp
  next
    case (Inr r)
    obtain p1 a1 where r: "r = (p1, a1)" by (cases r)
    obtain a2 r2 where l: "accept_loop config p1 evs = (a2, r2)"
      by (cases "accept_loop config p1 evs")
    from Cons.prems(1) Inr r l have r2: "r2 = Inr p'"
      by simp
    have one: "pool_ok p1 \<and> numconn p1 = numconn p \<and> rr p1 = rr p + 1"
      using accept_once_pool Inr r Cons.prems(2) by blast
    then have "pool_ok p' \<and> numconn p' = numconn p1 \<and> rr p' = rr p1 + of_nat (length evs)"
      using Cons.IH [of p1 a2] l r2 by simp
    with one show ?thesis
      by (simp add: algebra_simps)
  qed
qed

lemma numconn_nonzero:
  "Conn config mod 65536 \<noteq> 0 \<Longrightarrow> (word_of_int (Conn config) :: 16 word) \<noteq> 0"
  by (simp add: word_of_int_eq_0_iff dvd_eq_mod_eq_0)

lemma unat_numconn: "unat (word_of_int c :: 16 word) = nat (c mod 65536)"
  by (simp add: unsigned_of_int take_bit_eq_mod)

lemma idx_after:
  assumes "rr p = of_nat k" and "numconn p = word_of_int c"
  shows "idx p = (k mod 65536) mod nat (c mod 65536)"
  using assms by (simp add: idx_def unat_mod_distrib unat_of_nat unat_numconn)







lemma new_pool_expiring:
  "new_pool config_expiring =
     \<lparr>numconn = 1, muxes = [\<lparr>session = None, expiryDate = 0\<rparr>], connes = [None], rr = 0\<rparr>"
  by (simp add: new_pool_def config_expiring_def default_config_def)

lemma seconds_10: "sint (seconds 10) = 10000000000"
  by (simp add: seconds_def Second_def)

lemma AutoExpire_expiring: "AutoExpire config_expiring = 10"
  by (simp add: config_expiring_def)

lemma pool_first_fields:
  "numconn pool_first = 1" "rr pool_first = 1" "connes pool_first = [Some 2]"
  "muxes pool_first = [\<lparr>session = Some 1, expiryDate = 16000000000\<rparr>]"
  by (simp_all add: pool_first_def)

lemma accept_loop_step:
  assumes "accept_once config p ev = Inr (p1, a1)" and "accept_loop config p1 evs = (a2, r)"
  shows "accept_loop config p (ev # evs) = (a1 @ a2, r)"
  using assms by simp

lemma once_first:
  "accept_once config_expiring (new_pool config_expiring) ev_first =
     Inr (pool_first,
          [ChanSend \<lparr>session = Some 1, expiryDate = 16000000000\<rparr>, HandleClient (Some 1)])"
  by (simp add: new_pool_expiring accept_once_def idx_def stale_def ev_first_def Add_def
      seconds_10 AutoExpire_expiring pool_first_def Let_def)

lemma once_second:
  "accept_once config_expiring pool_first ev_second =
     Inr (pool_first\<lparr>rr := 2\<rparr>, [HandleClient (Some 1)])"
  by (simp add: AutoExpire_expiring accept_once_def idx_def stale_def After_def
      pool_first_fields ev_second_def)

lemma run_first:
  "accept_loop config_expiring (new_pool config_expiring) [ev_first] =
     ([ChanSend \<lparr>session = Some 1, expiryDate = 16000000000\<rparr>, HandleClient (Some 1)],
      Inr pool_first)"
  using accept_loop_step [OF once_first, of "[]"] by simp

lemma run_second:
  "accept_loop config_expiring (new_pool config_expiring) [ev_first, ev_second] =
     ([ChanSend \<lparr>session = Some 1, expiryDate = 16000000000\<rparr>, HandleClient (Some 1),
       HandleClient (Some 1)],
      Inr (pool_first\<lparr>rr := 2\<rparr>))"
proof -
  have "accept_loop config_expiring pool_first [ev_second] =
      ([HandleClient (Some 1)], Inr (pool_first\<lparr>rr := 2\<rparr>))"
    using accept_loop_step [OF once_second, of "[]"] by simp
  from accept_loop_step [OF once_first this] show ?thesis
    by simp
qed


lemma accept_once_slot:
  assumes "accept_once config p ev = Inr (p', acts')"
  shows "last acts' = HandleClient (session (muxes p' ! idx p))
     \<and> (\<forall>j. j \<noteq> idx p \<longrightarrow> muxes p' ! j = muxes p ! j \<and> connes p' ! j = connes p ! j)"
  using assms
  by (auto simp add: accept_once_def Let_def split: if_splits sum.splits prod.splits)

text \<open>
  Claim C6, as stated, fails: with \<^verbatim>\<open>Conn = 65537\<close> the pool has
  \<^verbatim>\<open>uint16(65537) = 1\<close> slot, and the accepted connection number 1 (the second one) goes to
  slot 0, not to slot \<open>(1 mod 2 ^ 16) mod 65537 = 1\<close>.
\<close>

theorem round_robin_conn_truncated:
  "accept_loop (default_config\<lparr>Conn := 65537\<rparr>) (new_pool (default_config\<lparr>Conn := 65537\<rparr>))
       [ev_first] =
     ([HandleClient (Some 1)],
      Inr \<lparr>numconn = 1, muxes = [\<lparr>session = Some 1, expiryDate = 6000000000\<rparr>],
           connes = [Some 2], rr = 1\<rparr>)
   \<and> idx \<lparr>numconn = 1, muxes = [\<lparr>session = Some 1, expiryDate = 6000000000\<rparr>],
           connes = [Some 2], rr = 1\<rparr> = 0
   \<and> (length [ev_first] mod 2 ^ 16) mod nat (Conn (default_config\<lparr>Conn := 65537\<rparr>)) = 1"
  by (simp add: new_pool_def accept_once_def idx_def stale_def ev_first_def Add_def
      seconds_def Second_def default_config_def Let_def)

text \<open>
  Claim C6, amended. After \<open>k\<close> accepted connections the 16-bit counter \<open>rr\<close> is \<open>k\<close>
  modulo \<open>2 ^ 16\<close> and the next connection, number \<open>k\<close>, is dispatched to the slot
  \<open>(k mod 2 ^ 16) mod (Conn mod 2 ^ 16)\<close>, the number of slots being
  \<^verbatim>\<open>uint16(config.Conn)\<close>; that is \<open>(k mod 2 ^ 16) mod Conn\<close> whenever
  \<open>1 \<le> Conn \<le> 65535\<close>. The turn opens its stream on the session of that slot, leaves
  every other slot as it was and adds 1 to the counter.
\<close>

theorem round_robin_slot:
  assumes run: "accept_loop config (new_pool config) evs = (acts, Inr p)"
    and conn: "Conn config mod 65536 \<noteq> 0"
  shows "rr p = of_nat (length evs) \<and> numconn p = word_of_int (Conn config)
    \<and> idx p = (length evs mod 65536) mod nat (Conn config mod 65536)
    \<and> (1 \<le> Conn config \<and> Conn config \<le> 65535 \<longrightarrow>
         idx p = (length evs mod 65536) mod nat (Conn config))
    \<and> idx p < length (muxes p)
    \<and> (accept_once config p ev = Inr (p', acts') \<longrightarrow>
         last acts' = HandleClient (session (muxes p' ! idx p))
         \<and> (\<forall>j. j \<noteq> idx p \<longrightarrow> muxes p' ! j = muxes p ! j \<and> connes p' ! j = connes p ! j)
         \<and> rr p' = rr p + 1)"
proof -
  have ok: "pool_ok p" and n: "numconn p = word_of_int (Conn config)"
    and r: "rr p = of_nat (length evs)"
    using accept_loop_pool [OF run pool_ok_new_pool]
    by (simp_all add: numconn_new_pool rr_new_pool)
  have nz: "numconn p \<noteq> 0"
    using n conn numconn_nonzero by simp
  have i: "idx p = (length evs mod 65536) mod nat (Conn config mod 65536)"
    by (rule idx_after [OF r n])
  have i': "idx p = (length evs mod 65536) mod nat (Conn config)"
    if "1 \<le> Conn config \<and> Conn config \<le> 65535"
    using that i by simp
  have l: "idx p < length (muxes p)"
    using idx_less [OF nz] ok by (simp add: pool_ok_def)
  have step: "last acts' = HandleClient (session (muxes p' ! idx p))
         \<and> (\<forall>j. j \<noteq> idx p \<longrightarrow> muxes p' ! j = muxes p ! j \<and> connes p' ! j = connes p ! j)
         \<and> rr p' = rr p + 1"
    if "accept_once config p ev = Inr (p', acts')"
    using accept_once_slot [OF that] accept_once_pool [OF that ok] by simp
  show ?thesis
    using r n i i' l step by blast
qed


lemma replicate_two: "replicate 2 x = [x, x]"
  by (simp add: numeral_2_eq_2)

text \<open>The theorem at \<^verbatim>\<open>Conn = 2\<close>, after one accepted connection.\<close>

theorem round_robin_slot_witness:
  "Conn (default_config\<lparr>Conn := 2\<rparr>) mod 65536 \<noteq> 0
   \<and> accept_loop (default_config\<lparr>Conn := 2\<rparr>) (new_pool (default_config\<lparr>Conn := 2\<rparr>)) [ev_first] =
     ([HandleClient (Some 1)],
      Inr \<lparr>numconn = 2,
           muxes = [\<lparr>session = Some 1, expiryDate = 6000000000\<rparr>,
                    \<lparr>session = None, expiryDate = 0\<rparr>],
           connes = [Some 2, None], rr = 1\<rparr>)
   \<and> idx \<lparr>numconn = 2,
           muxes = [\<lparr>session = Some 1, expiryDate = 6000000000\<rparr>,
                    \<lparr>session = None, expiryDate = 0\<rparr>],
           connes = [Some 2, None], rr = 1\<rparr> = 1"
proof -
  let ?c = "default_config\<lparr>Conn := 2\<rparr>"
  let ?p = "\<lparr>numconn = 2,
           muxes = [\<lparr>session = Some 1, expiryDate = 6000000000\<rparr>,
                    \<lparr>session = None, expiryDate = 0\<rparr>],
           connes = [Some 2, None], rr = 1\<rparr>"
  have conn: "Conn ?c mod 65536 \<noteq> 0"
    by simp
  have n: "new_pool ?c = \<lparr>numconn = 2,
           muxes = [\<lparr>session = None, expiryDate = 0\<rparr>, \<lparr>session = None, expiryDate = 0\<rparr>],
           connes = [None, None], rr = 0\<rparr>"
    by (simp add: new_pool_def replicate_two)
  have ae: "AutoExpire ?c = 0"
    by (simp add: default_config_def)
  have run: "accept_loop ?c (new_pool ?c) [ev_first] = ([HandleClient (Some 1)], Inr ?p)"
    by (simp add: n ae accept_once_def idx_def stale_def ev_first_def Add_def
      seconds_def Second_def Let_def)
  show ?thesis
    using conn run round_robin_slot [OF run conn] by simp
qed


subsection \<open>The pool and the scavenger channel\<close>

lemma sent_before_append:
  "sent_before S (a @ b) \<longleftrightarrow> sent_before S a \<and> sent_before (S \<union> sent_sessions a) b"
  by (induction S a rule: sent_before.induct) simp_all

lemma sent_before_split:
  assumes "sent_before S (pre @ HandleClient s # post)"
  shows "s \<noteq> None \<and> s \<in> S \<union> sent_sessions pre"
  using assms by (simp add: sent_before_append)

lemma sent_sessions_mem:
  "s \<in> sent_sessions acts \<Longrightarrow> \<exists>e. ChanSend \<lparr>session = s, expiryDate = e\<rparr> \<in> set acts"
proof (induction acts rule: sent_sessions.induct)
  case 1
  then show ?case by simp
next
  case (2 m rest)
  show ?case
  proof (cases "s = session m")
    case True
    then have "m = \<lparr>session = s, expiryDate = expiryDate m\<rparr>"
      by simp
    then have "ChanSend \<lparr>session = s, expiryDate = expiryDate m\<rparr> \<in> set (ChanSend m # rest)"
      by simp
    then show ?thesis by blast
  next
    case False
    with 2 show ?thesis by auto
  qed
next
  case (3 s' rest)
  then show ?case by auto
qed

lemma accept_once_sent:
  assumes pos: "0 < AutoExpire config"
    and inv: "\<forall>m \<in> set (muxes p). session m \<noteq> None \<longrightarrow> session m \<in> S"
    and step: "accept_once config p ev = Inr (p', a)"
  shows "sent_before S a
    \<and> (\<forall>m \<in> set (muxes p'). session m \<noteq> None \<longrightarrow> session m \<in> S \<union> sent_sessions a)"
proof (cases "stale config ev (muxes p ! idx p)")
  case True
  with step pos obtain s where
    a: "a = [ChanSend \<lparr>session = Some s,
               expiryDate = Add (now_fill ev) (seconds (AutoExpire config))\<rparr>,
             HandleClient (Some s)]"
    and p': "muxes p' = (muxes p)[idx p := \<lparr>session = Some s,
               expiryDate = Add (now_fill ev) (seconds (AutoExpire config))\<rparr>]"
    by (auto simp add: accept_once_def Let_def split: if_splits sum.splits prod.splits)
  have sub: "set (muxes p') \<subseteq> insert \<lparr>session = Some s,
               expiryDate = Add (now_fill ev) (seconds (AutoExpire config))\<rparr> (set (muxes p))"
    unfolding p' by (rule set_update_subset_insert)
  have "session m \<in> S \<union> sent_sessions a"
    if "m \<in> set (muxes p')" and "session m \<noteq> None" for m
  proof -
    from sub that(1) have "m = \<lparr>session = Some s,
               expiryDate = Add (now_fill ev) (seconds (AutoExpire config))\<rparr> \<or> m \<in> set (muxes p)"
      by auto
    then show ?thesis
      using inv that(2) by (auto simp add: a)
  qed
  then show ?thesis
    by (simp add: a)
next
  case False
  with step have a: "a = [HandleClient (session (muxes p ! idx p))]"
    and p': "muxes p' = muxes p" and i: "idx p < length (muxes p)"
    by (auto simp add: accept_once_def Let_def split: if_splits)
  from False have "session (muxes p ! idx p) \<noteq> None"
    by (auto simp add: stale_def split: option.splits)
  moreover have "muxes p ! idx p \<in> set (muxes p)"
    using i by simp
  ultimately show ?thesis
    using inv by (auto simp add: a p')
qed

lemma accept_loop_sent:
  assumes pos: "0 < AutoExpire config"
    and inv: "\<forall>m \<in> set (muxes p). session m \<noteq> None \<longrightarrow> session m \<in> S"
  shows "sent_before S (fst (accept_loop config p evs))"
  using inv
proof (induction evs arbitrary: p S)
  case Nil
  show ?case by simp
next
  case (Cons ev evs)
  show ?case
  proof (cases "accept_once config p ev")
    case (Inl h)
    then show ?thesis by simp
  next
    case (Inr r)
    obtain p1 a1 where r: "r = (p1, a1)" by (cases r)
    have one: "sent_before S a1
      \<and> (\<forall>m \<in> set (muxes p1). session m \<noteq> None \<longrightarrow> session m \<in> S \<union> sent_sessions a1)"
      using accept_once_sent [OF pos Cons.prems] Inr r by simp
    then have "sent_before (S \<union> sent_sessions a1) (fst (accept_loop config p1 evs))"
      using Cons.IH by blast
    with one show ?thesis
      using Inr r by (auto simp add: sent_before_append split: prod.splits)
  qed
qed

lemma new_pool_no_session: "\<forall>m \<in> set (muxes (new_pool config)). session m = None"
  by (simp add: new_pool_def Let_def)

text \<open>
  Claim C1, as stated, fails: with \<^verbatim>\<open>AutoExpire = 10\<close> the first accepted connection
  dials session 1, sends it on the scavenger channel and opens a stream on it; the second
  accepted connection, later, opens its stream on the same session.
\<close>

theorem scavenged_session_reused:
  "0 < AutoExpire config_expiring
   \<and> accept_loop config_expiring (new_pool config_expiring) [ev_first] =
       ([ChanSend \<lparr>session = Some 1, expiryDate = 16000000000\<rparr>, HandleClient (Some 1)],
        Inr pool_first)
   \<and> accept_once config_expiring pool_first ev_second =
       Inr (pool_first\<lparr>rr := 2\<rparr>, [HandleClient (Some 1)])"
  using run_first once_second by (simp add: AutoExpire_expiring)

text \<open>
  Claim C1, amended. With \<^verbatim>\<open>AutoExpire > 0\<close>, in every run of the acceptor from the
  start, each stream is opened on a session that is not nil and that was sent on the
  scavenger channel earlier in the run (a session is sent when it is dialled, before its
  first stream); and an accepted connection has its stream opened either on the session
  dialled at that turn, or on the session of the chosen slot, and then that session does
  not report closed and the clock is not after the slot's expiry.
\<close>

theorem streams_on_sent_sessions:
  assumes pos: "0 < AutoExpire config"
    and run: "accept_loop config (new_pool config) evs = (acts, r)"
  shows "(acts = pre @ HandleClient s # post \<longrightarrow>
           (\<exists>x e. s = Some x \<and> ChanSend \<lparr>session = Some x, expiryDate = e\<rparr> \<in> set pre))
    \<and> (r = Inr p \<and> accept_once config p ev = Inr (p', acts') \<and> HandleClient s' \<in> set acts' \<longrightarrow>
         (\<exists>x. s' = Some x \<and>
            ((\<exists>c. waitConn (dials ev) = Inr (x, c))
             \<or> (session (muxes p ! idx p) = Some x \<and> \<not> IsClosed ev x
                 \<and> \<not> expiryDate (muxes p ! idx p) < now_check ev))))"
proof (intro conjI impI)
  assume acts: "acts = pre @ HandleClient s # post"
  have "sent_before {} acts"
    using accept_loop_sent [OF pos, of "new_pool config" "{}" evs] new_pool_no_session run
    by simp
  then have "s \<noteq> None" and "s \<in> sent_sessions pre"
    using sent_before_split [of "{}" pre s post] acts by simp_all
  then show "\<exists>x e. s = Some x \<and> ChanSend \<lparr>session = Some x, expiryDate = e\<rparr> \<in> set pre"
    using sent_sessions_mem [of s pre] by auto
next
  assume "r = Inr p \<and> accept_once config p ev = Inr (p', acts') \<and> HandleClient s' \<in> set acts'"
  then show "\<exists>x. s' = Some x \<and>
            ((\<exists>c. waitConn (dials ev) = Inr (x, c))
             \<or> (session (muxes p ! idx p) = Some x \<and> \<not> IsClosed ev x
                 \<and> \<not> expiryDate (muxes p ! idx p) < now_check ev))"
    using pos
    by (auto simp add: accept_once_def Let_def stale_def After_def
        split: if_splits sum.splits prod.splits option.splits)
qed

text \<open>The theorem at the run of two accepted connections with \<^verbatim>\<open>AutoExpire = 10\<close>.\<close>

theorem streams_on_sent_sessions_witness:
  "0 < AutoExpire config_expiring
   \<and> fst (accept_loop config_expiring (new_pool config_expiring) [ev_first, ev_second])
       = [ChanSend \<lparr>session = Some 1, expiryDate = 16000000000\<rparr>, HandleClient (Some 1)]
         @ HandleClient (Some 1) # []
   \<and> (\<exists>x e. Some (1::nat) = Some x \<and>
         ChanSend \<lparr>session = Some x, expiryDate = e\<rparr>
           \<in> set [ChanSend \<lparr>session = Some 1, expiryDate = 16000000000\<rparr>, HandleClient (Some 1)])"
proof -
  have pos: "0 < AutoExpire config_expiring"
    by (simp add: AutoExpire_expiring)
  have run: "accept_loop config_expiring (new_pool config_expiring) [ev_first, ev_second] =
      ([ChanSend \<lparr>session = Some 1, expiryDate = 16000000000\<rparr>, HandleClient (Some 1)]
         @ HandleClient (Some 1) # [], Inr (pool_first\<lparr>rr := 2\<rparr>))"
    using run_second by simp
  show ?thesis
    using pos run streams_on_sent_sessions [OF pos run, of "[ChanSend \<lparr>session = Some 1, expiryDate = 16000000000\<rparr>,
        HandleClient (Some 1)]" "Some 1" "[]"]
    by simp
qed

end
